theory Spec2Isabelle
  imports Main
begin

section \<open>The editor state of nano-clone.c\<close>

text \<open>
  The C program keeps one global \<^verbatim>\<open>EditorState E\<close>. The pair
  \<^verbatim>\<open>char **lines; int numlines\<close> is a growable array of C strings: it is the list
  \<open>lines\<close>, and \<open>numlines\<close> reads its length. A line is a C string, so the model's
  \<open>string\<close> holds the bytes before the terminating NUL. The fields of type
  \<^verbatim>\<open>int\<close> are HOL's \<open>int\<close>. In the line and cursor operations the values
  are line counts and line lengths. \<open>editor_scroll\<close> adds scroll offsets and screen
  sizes, which no list length bounds: there the 32-bit arithmetic of the machine is
  written out. The flag \<open>modified\<close> is the C \<^verbatim>\<open>int\<close>, 0 or 1.
\<close>

record EditorState =
  lines :: "string list"
  row :: int
  col :: int
  topline :: int
  leftcol :: int
  screenrows :: int
  screencols :: int
  filename :: "string option"
  modified :: int

definition numlines :: "EditorState \<Rightarrow> int" where
  "numlines e = int (length (lines e))"

definition strlen :: "string \<Rightarrow> int" where
  "strlen s = int (length s)"

definition NUL :: char where
  "NUL = CHR 0x00"

definition NL :: char where
  "NL = CHR 0x0A"

definition CR :: char where
  "CR = CHR 0x0D"

text \<open>
  What C reads as a string from a byte buffer: the bytes before the first NUL.
  \<^verbatim>\<open>strdup\<close> copies exactly these.
\<close>

definition c_str :: "string \<Rightarrow> string" where
  "c_str buf = takeWhile (\<lambda>c. c \<noteq> NUL) buf"

text \<open>
  \<^verbatim>\<open>strlen(E.lines[r])\<close>. Reading the array outside \<open>0 \<le> r < numlines\<close> is undefined
  in C; the model returns \<open>None\<close> there, and every function that reads the array
  without a guard of its own passes the \<open>None\<close> on.
\<close>

definition line_len :: "EditorState \<Rightarrow> int \<Rightarrow> int option" where
  "line_len e r =
     (if 0 \<le> r \<and> r < numlines e then Some (strlen (lines e ! nat r)) else None)"

subsection \<open>Line operations\<close>

definition editor_insert_line :: "int \<Rightarrow> string \<Rightarrow> EditorState \<Rightarrow> EditorState" where
  "editor_insert_line at s e =
     (if at < 0 \<or> at > numlines e then e
      else e\<lparr>lines := take (nat at) (lines e) @ [c_str s] @ drop (nat at) (lines e),
              modified := 1\<rparr>)"

definition editor_delete_line :: "int \<Rightarrow> EditorState \<Rightarrow> EditorState" where
  "editor_delete_line at e =
     (if at < 0 \<or> at \<ge> numlines e then e
      else
        let e1 = e\<lparr>lines := take (nat at) (lines e) @ drop (nat at + 1) (lines e),
                    modified := 1\<rparr>
        in if numlines e1 = 0 then editor_insert_line 0 [] e1 else e1)"

subsection \<open>Character operations\<close>

definition editor_insert_char :: "char \<Rightarrow> EditorState \<Rightarrow> EditorState" where
  "editor_insert_char ch e =
     (if row e < 0 \<or> row e \<ge> numlines e then e
      else
        let line = lines e ! nat (row e);
            len = strlen line;
            c0 = (if col e < 0 then 0 else col e);
            c1 = (if c0 > len then len else c0);
            newline = take (nat c1) line @ [ch] @ drop (nat c1) line
        in e\<lparr>lines := (lines e)[nat (row e) := c_str newline],
                col := c1 + 1,
                modified := 1\<rparr>)"

text \<open>
  \<^verbatim>\<open>editor_delete_char\<close> guards the row only. With \<open>col > strlen line\<close> its
  \<^verbatim>\<open>memcpy\<close> leaves the new buffer without a terminator or reads past the line, and with
  \<open>col < 0\<close> on row 0 it reads \<^verbatim>\<open>E.lines[-1]\<close>: both are \<open>None\<close>.
  The merge shifts the array down over slot \<open>row - 1\<close> (the \<^verbatim>\<open>memmove\<close>) and then
  stores the joined line in that slot.
\<close>

definition editor_delete_char :: "EditorState \<Rightarrow> EditorState option" where
  "editor_delete_char e =
     (if row e < 0 \<or> row e \<ge> numlines e then Some e
      else if col e = 0 \<and> row e = 0 then Some e
      else
        let line = lines e ! nat (row e);
            len = strlen line
        in if col e > 0 then
             (if col e > len then None
              else Some (e\<lparr>lines := (lines e)[nat (row e) :=
                                   take (nat (col e - 1)) line @ drop (nat (col e)) line],
                            col := col e - 1,
                            modified := 1\<rparr>))
           else
             (if row e - 1 < 0 then None
              else
                let prev = lines e ! nat (row e - 1);
                    prev_len = strlen prev;
                    newline = prev @ line;
                    shifted = take (nat (row e - 1)) (lines e) @ drop (nat (row e)) (lines e)
                in Some (e\<lparr>lines := shifted[nat (row e - 1) := newline],
                              row := row e - 1,
                              col := prev_len,
                              modified := 1\<rparr>)))"

subsection \<open>Cursor movement\<close>

text \<open>The key codes of \<^verbatim>\<open>ncurses.h\<close> (octal 0402, 0403, 0404, 0405 and 0407).\<close>

definition KEY_DOWN :: int where "KEY_DOWN = 258"
definition KEY_UP :: int where "KEY_UP = 259"
definition KEY_LEFT :: int where "KEY_LEFT = 260"
definition KEY_RIGHT :: int where "KEY_RIGHT = 261"
definition KEY_BACKSPACE :: int where "KEY_BACKSPACE = 263"

definition clamp_col :: "EditorState \<Rightarrow> EditorState option" where
  "clamp_col e =
     (case line_len e (row e) of
        None \<Rightarrow> None
      | Some n \<Rightarrow> Some (if col e > n then e\<lparr>col := n\<rparr> else e))"

definition editor_move_cursor :: "int \<Rightarrow> EditorState \<Rightarrow> EditorState option" where
  "editor_move_cursor key e =
     (if key = KEY_UP then
        clamp_col (if row e > 0 then e\<lparr>row := row e - 1\<rparr> else e)
      else if key = KEY_DOWN then
        clamp_col (if row e < numlines e - 1 then e\<lparr>row := row e + 1\<rparr> else e)
      else if key = KEY_LEFT then
        (if col e > 0 then Some (e\<lparr>col := col e - 1\<rparr>)
         else if row e > 0 then
           (case line_len e (row e - 1) of
              None \<Rightarrow> None
            | Some n \<Rightarrow> Some (e\<lparr>row := row e - 1, col := n\<rparr>))
         else Some e)
      else if key = KEY_RIGHT then
        (case line_len e (row e) of
           None \<Rightarrow> None
         | Some n \<Rightarrow>
             if col e < n then Some (e\<lparr>col := col e + 1\<rparr>)
             else if row e < numlines e - 1 then Some (e\<lparr>row := row e + 1, col := 0\<rparr>)
             else Some e)
      else Some e)"


subsection \<open>Scrolling\<close>

text \<open>
  The range of a 32-bit \<^verbatim>\<open>int\<close>, and its addition and subtraction: a result out
  of range wraps around modulo \<open>2 ^ 32\<close>, as the two's-complement machine computes it.
\<close>

definition INT_MAX :: int where
  "INT_MAX = 2147483647"

definition INT_MIN :: int where
  "INT_MIN = - 2147483648"

definition is_int :: "int \<Rightarrow> bool" where
  "is_int x = (INT_MIN \<le> x \<and> x \<le> INT_MAX)"

definition wrap_int :: "int \<Rightarrow> int" where
  "wrap_int x = (x + 2147483648) mod 4294967296 - 2147483648"

definition int_add :: "int \<Rightarrow> int \<Rightarrow> int" where
  "int_add a b = wrap_int (a + b)"

definition int_sub :: "int \<Rightarrow> int \<Rightarrow> int" where
  "int_sub a b = wrap_int (a - b)"

definition editor_scroll :: "EditorState \<Rightarrow> EditorState" where
  "editor_scroll e =
     (let e1 = (if row e < topline e then e\<lparr>topline := row e\<rparr> else e);
          e2 = (if row e1 \<ge> int_add (topline e1) (screenrows e1)
                then e1\<lparr>topline := int_add (int_sub (row e1) (screenrows e1)) 1\<rparr> else e1);
          e3 = (if col e2 < leftcol e2 then e2\<lparr>leftcol := col e2\<rparr> else e2)
      in if col e3 \<ge> int_add (leftcol e3) (screencols e3)
         then e3\<lparr>leftcol := int_add (int_sub (col e3) (screencols e3)) 1\<rparr> else e3)"

subsection \<open>Terminal, keyboard and files\<close>

text \<open>
  What the program touches outside \<^verbatim>\<open>E\<close>: the pending key events that
  \<^verbatim>\<open>getch\<close> returns one at a time (\<^verbatim>\<open>ERR\<close>, which is -1, once none is left), the
  message row of the screen written by \<^verbatim>\<open>editor_status_message\<close>, the terminal size
  read by \<^verbatim>\<open>getmaxyx\<close>, and a small file system: the contents of the files by name,
  the names that \<^verbatim>\<open>fopen\<close> refuses, the number of bytes the device still takes, and
  the size of the buffer that the C library gives a stream.
\<close>

record world =
  ed :: EditorState
  keys :: "int list"
  status :: string
  maxyx :: "int \<times> int"
  disk :: "string \<Rightarrow> string option"
  denied :: "string \<Rightarrow> bool"
  space :: nat
  blksize :: nat

definition getch :: "world \<Rightarrow> int \<times> world" where
  "getch w = (case keys w of [] \<Rightarrow> (- 1, w) | k # ks \<Rightarrow> (k, w\<lparr>keys := ks\<rparr>))"

definition editor_status_message :: "string \<Rightarrow> world \<Rightarrow> world" where
  "editor_status_message msg w = w\<lparr>status := msg\<rparr>"

text \<open>
  The C locale is in force (the program never calls \<^verbatim>\<open>setlocale\<close>): the printable
  characters are the codes 32 to 126. Key codes above 255 and \<^verbatim>\<open>ERR\<close> are not.
\<close>

definition isprint :: "int \<Rightarrow> bool" where
  "isprint c = (32 \<le> c \<and> c \<le> 126)"

text \<open>
  A stream open for writing is buffered: it holds the bytes not yet handed to the device,
  next to what the device has taken and what it still takes. Flushing hands the buffer
  to the device, which takes as many bytes as it has room for; the flush fails when
  bytes are left over. \<^verbatim>\<open>fprintf\<close> puts its bytes into the buffer and flushes once
  the buffer is full; it returns the number of bytes, or a negative value when that
  flush fails. \<^verbatim>\<open>fclose\<close> flushes, leaves the file with what the device took, and
  returns 0 or \<^verbatim>\<open>EOF\<close> (-1) when the flush fails.
\<close>

record wfile =
  pending :: string
  written :: string
  room :: nat
  bufsiz :: nat

definition fopen_w :: "world \<Rightarrow> string \<Rightarrow> wfile option" where
  "fopen_w w name =
     (if denied w name then None
      else Some \<lparr>pending = [], written = [], room = space w, bufsiz = blksize w\<rparr>)"

definition fflush :: "wfile \<Rightarrow> int \<times> wfile" where
  "fflush fp =
     (let n = min (length (pending fp)) (room fp)
      in (if n = length (pending fp) then 0 else - 1,
          fp\<lparr>written := written fp @ take n (pending fp), room := room fp - n,
              pending := []\<rparr>))"

definition fprintf :: "wfile \<Rightarrow> string \<Rightarrow> int \<times> wfile" where
  "fprintf fp s =
     (let fp1 = fp\<lparr>pending := pending fp @ s\<rparr>
      in if length (pending fp1) < bufsiz fp1 then (int (length s), fp1)
         else (if fst (fflush fp1) = 0 then int (length s) else - 1, snd (fflush fp1)))"

definition fclose_w :: "string \<Rightarrow> wfile \<Rightarrow> world \<Rightarrow> int \<times> world" where
  "fclose_w name fp w =
     (fst (fflush fp), w\<lparr>disk := (disk w)(name \<mapsto> written (snd (fflush fp)))\<rparr>)"

text \<open>\<^verbatim>\<open>fopen(filename, "r")\<close>: no such file (\<^verbatim>\<open>ENOENT\<close>), another error, or the bytes.\<close>

datatype rfile = No_such_file | Open_error | Opened string

definition fopen_r :: "world \<Rightarrow> string \<Rightarrow> rfile" where
  "fopen_r w name =
     (case disk w name of
        None \<Rightarrow> No_such_file
      | Some bytes \<Rightarrow> if denied w name then Open_error else Opened bytes)"

text \<open>
  The buffers that successive calls of \<^verbatim>\<open>getline\<close> return: each runs up to and
  including the next newline; the last one has no newline when the stream does not end
  in one. The first argument is the part of the current line read so far.
\<close>

fun getlines :: "string \<Rightarrow> string \<Rightarrow> string list" where
  "getlines cur [] = (if cur = [] then [] else [cur])"
| "getlines cur (c # cs) =
     (if c = NL then (cur @ [c]) # getlines [] cs else getlines (cur @ [c]) cs)"

definition strip_newline :: "string \<Rightarrow> string" where
  "strip_newline buf =
     (if length buf > 0 \<and> (buf ! (length buf - 1) = NL \<or> buf ! (length buf - 1) = CR)
      then buf[length buf - 1 := NUL] else buf)"

subsection \<open>Loading, saving, start-up\<close>

definition editor_load_file :: "string \<Rightarrow> world \<Rightarrow> world" where
  "editor_load_file name w =
     (case fopen_r w name of
        No_such_file \<Rightarrow> w\<lparr>ed := editor_insert_line 0 [] (ed w)\<rparr>
      | Open_error \<Rightarrow>
          editor_status_message ''Error opening file.''
            (w\<lparr>ed := editor_insert_line 0 [] (ed w)\<rparr>)
      | Opened bytes \<Rightarrow>
          let e1 = fold (\<lambda>buf e. editor_insert_line (numlines e) (strip_newline buf) e)
                     (getlines [] bytes) (ed w)
          in w\<lparr>ed := (if numlines e1 = 0 then editor_insert_line 0 [] e1 else e1)\<rparr>)"

text \<open>The name the file is saved under: the one given at start-up, or the fixed one.\<close>

definition save_name :: "EditorState \<Rightarrow> string" where
  "save_name e = (case filename e of None \<Rightarrow> ''untitled.txt'' | Some n \<Rightarrow> n)"

text \<open>
  The loop of \<^verbatim>\<open>editor_save_file\<close>: one \<^verbatim>\<open>fprintf(fp, "%s\n", ...)\<close> for each line,
  its result dropped.
\<close>

definition write_lines :: "string list \<Rightarrow> wfile \<Rightarrow> wfile" where
  "write_lines ls fp = fold (\<lambda>l f. snd (fprintf f (l @ [NL]))) ls fp"

definition editor_save_file :: "world \<Rightarrow> int \<times> world" where
  "editor_save_file w =
     (let name = save_name (ed w);
          w1 = w\<lparr>ed := (ed w)\<lparr>filename := Some name\<rparr>\<rparr>
      in case fopen_w w1 name of
           None \<Rightarrow> (- 1, editor_status_message ''Error: Cannot open file for writing!'' w1)
         | Some fp \<Rightarrow>
             let fp1 = write_lines (lines (ed w1)) fp;
                 w2 = snd (fclose_w name fp1 w1);
                 w3 = w2\<lparr>ed := (ed w2)\<lparr>modified := 0\<rparr>\<rparr>
             in (0, editor_status_message ''File saved successfully!'' w3))"

definition editor_init :: "string option \<Rightarrow> world \<Rightarrow> world" where
  "editor_init fname w =
     (let e0 = \<lparr>lines = [], row = 0, col = 0, topline = 0, leftcol = 0,
                screenrows = fst (maxyx w) - 3, screencols = snd (maxyx w),
                filename = None, modified = 0\<rparr>;
          w1 = (case fname of
                  Some f \<Rightarrow> editor_load_file f (w\<lparr>ed := e0\<lparr>filename := Some f\<rparr>\<rparr>)
                | None \<Rightarrow> w\<lparr>ed := editor_insert_line 0 [] e0\<rparr>)
      in editor_status_message ''HELP: Ctrl+O = Save | Ctrl+X = Exit'' w1)"

subsection \<open>Key dispatch and the main loop\<close>

text \<open>
  The Enter case of \<^verbatim>\<open>editor_process_key\<close>, for the keys 13 and 10.
\<close>

definition editor_newline :: "EditorState \<Rightarrow> EditorState option" where
  "editor_newline e =
     (if row e < numlines e - 1 then
        (let e1 = e\<lparr>row := row e + 1\<rparr> in
         case line_len e1 (row e1) of
           None \<Rightarrow> None
         | Some n \<Rightarrow> Some (if col e1 > n then e1\<lparr>col := n\<rparr> else e1))
      else
        (let e1 = editor_insert_line (numlines e) [] e
         in Some (e1\<lparr>row := row e1 + 1, col := 0\<rparr>)))"

text \<open>
  One call of \<^verbatim>\<open>editor_process_key\<close> ends the process (\<^verbatim>\<open>exit(0)\<close>), returns to the
  main loop, or has read the line array out of range.
\<close>

datatype outcome = Exited | Running world | Undefined

definition resume :: "world \<Rightarrow> EditorState option \<Rightarrow> outcome" where
  "resume w r = (case r of None \<Rightarrow> Undefined | Some e \<Rightarrow> Running (w\<lparr>ed := e\<rparr>))"

definition exit_prompt :: string where
  "exit_prompt = ''File modified. Ctrl+O to save, Ctrl+X to exit without saving.''"

definition editor_process_key :: "int \<Rightarrow> world \<Rightarrow> outcome" where
  "editor_process_key c w =
     (if c = 24 then
        (if modified (ed w) \<noteq> 0 then
           (let w1 = editor_status_message exit_prompt w;
                c2 = fst (getch w1);
                w2 = snd (getch w1)
            in if c2 \<noteq> 24 then Running w2 else Exited)
         else Exited)
      else if c = 15 then Running (snd (editor_save_file w))
      else if c = KEY_UP \<or> c = KEY_DOWN \<or> c = KEY_LEFT \<or> c = KEY_RIGHT then
        resume w (editor_move_cursor c (ed w))
      else if c = KEY_BACKSPACE \<or> c = 127 then resume w (editor_delete_char (ed w))
      else if c = 13 \<or> c = 10 then resume w (editor_newline (ed w))
      else if isprint c then Running (w\<lparr>ed := editor_insert_char (char_of c) (ed w)\<rparr>)
      else Running w)"

text \<open>
  One turn of the loop in \<^verbatim>\<open>main\<close>: refresh (which scrolls; painting changes nothing
  the program reads back), read a key, process it.
\<close>

definition editor_refresh_screen :: "world \<Rightarrow> world" where
  "editor_refresh_screen w = w\<lparr>ed := editor_scroll (ed w)\<rparr>"

definition main_step :: "world \<Rightarrow> outcome" where
  "main_step w =
     (let w1 = editor_refresh_screen w
      in editor_process_key (fst (getch w1)) (snd (getch w1)))"

subsection \<open>Valid states\<close>




text \<open>
  What holds of a stream that has been given the bytes \<open>sent\<close> so far, on a device
  that had room for \<open>n\<close> bytes when the stream was opened: the bytes that are or will
  be in the file are the first \<open>n\<close> bytes of \<open>sent\<close>.
\<close>

definition stream_inv :: "nat \<Rightarrow> string \<Rightarrow> wfile \<Rightarrow> bool" where
  "stream_inv n sent fp =
     (length (written fp) + room fp = n
      \<and> written fp @ take (room fp) (pending fp) = take n sent)"

subsection \<open>Example states\<close>

definition ex_doc :: EditorState where
  "ex_doc = \<lparr>lines = [''ab'', ''cd''], row = 1, col = 0, topline = 0, leftcol = 0,
              screenrows = 21, screencols = 80, filename = None, modified = 0\<rparr>"

definition ex_world :: world where
  "ex_world = \<lparr>ed = ex_doc\<lparr>modified := 1\<rparr>, keys = [], status = [], maxyx = (24, 80),
                disk = Map.empty, denied = (\<lambda>name. False), space = 1000,
                blksize = 4096\<rparr>"

section \<open>Facts shared by the proofs\<close>


lemma c_str_Nil: "c_str [] = []"
  by (simp add: c_str_def)




section \<open>Scrolling\<close>

lemma editor_scroll_fields:
  "row (editor_scroll e) = row e" "col (editor_scroll e) = col e"
  "screenrows (editor_scroll e) = screenrows e" "screencols (editor_scroll e) = screencols e"
  "lines (editor_scroll e) = lines e" "modified (editor_scroll e) = modified e"
  by (simp_all add: editor_scroll_def Let_def)

lemma wrap_int_id: "is_int x \<Longrightarrow> wrap_int x = x"
  by (simp add: wrap_int_def is_int_def INT_MIN_def INT_MAX_def)

lemma wrap_int_over:
  assumes "INT_MAX < x" and "x \<le> INT_MAX + INT_MAX"
  shows "wrap_int x = x - 4294967296"
proof -
  have "(x + 2147483648) mod 4294967296 = (x - 2147483648 + 4294967296) mod 4294967296"
    by (simp add: add.commute)
  also have "\<dots> = (x - 2147483648) mod 4294967296"
    by (rule mod_add_self2)
  also have "\<dots> = x - 2147483648"
    using assms by (intro mod_pos_pos_trivial) (simp_all add: INT_MAX_def)
  finally show ?thesis
    by (simp add: wrap_int_def)
qed

text \<open>
  One axis of \<open>editor_scroll\<close>: the offset \<open>t\<close> after the two tests, for the cursor
  coordinate \<open>r\<close> and the window size \<open>s\<close>.
\<close>

lemma scroll_axis:
  assumes "is_int r" and "is_int t" and "is_int s" and "0 < s"
  shows "(if r \<ge> int_add (if r < t then r else t) s
          then int_add (int_sub r s) 1 else (if r < t then r else t))
         = (if r < t then (if INT_MAX < r + s then r - s + 1 else r)
            else if INT_MAX < t + s \<or> t + s \<le> r then r - s + 1
            else t)"
proof -
  define t1 where "t1 = (if r < t then r else t)"
  have t1: "is_int t1" "t1 \<le> r"
    using assms(1,2) by (auto simp: t1_def)
  have b: "INT_MIN \<le> r" "r \<le> INT_MAX" "INT_MIN \<le> t1" "t1 \<le> INT_MAX" "s \<le> INT_MAX"
    using assms(1,3) t1(1) by (auto simp: is_int_def)
  have sum: "int_add t1 s = (if INT_MAX < t1 + s then t1 + s - 4294967296 else t1 + s)"
  proof (cases "INT_MAX < t1 + s")
    case True
    then show ?thesis
      using b wrap_int_over[of "t1 + s"] by (simp add: int_add_def)
  next
    case False
    then have "is_int (t1 + s)"
      using b assms(4) by (simp add: is_int_def)
    then show ?thesis
      using False by (simp add: int_add_def wrap_int_id)
  qed
  have moved: "r \<ge> int_add t1 s \<Longrightarrow> int_add (int_sub r s) 1 = r - s + 1"
  proof -
    assume trig: "r \<ge> int_add t1 s"
    have lo: "INT_MIN \<le> r - s"
    proof (cases "INT_MAX < t1 + s")
      case True
      then show ?thesis
        using b t1(2) by (simp add: INT_MIN_def INT_MAX_def)
    next
      case False
      then show ?thesis
        using trig sum b by simp
    qed
    then have "is_int (r - s)" "is_int (r - s + 1)"
      using b assms(4) by (simp_all add: is_int_def)
    then show ?thesis
      by (simp add: int_add_def int_sub_def wrap_int_id)
  qed
  have trig_iff: "r \<ge> int_add t1 s \<longleftrightarrow> INT_MAX < t1 + s \<or> t1 + s \<le> r"
    using sum b t1(2) assms(4) by (auto simp: INT_MAX_def INT_MIN_def)
  have res: "(if r \<ge> int_add t1 s then int_add (int_sub r s) 1 else t1)
      = (if INT_MAX < t1 + s \<or> t1 + s \<le> r then r - s + 1 else t1)"
    using moved trig_iff by simp
  have "(if r \<ge> int_add (if r < t then r else t) s
         then int_add (int_sub r s) 1 else (if r < t then r else t))
        = (if r \<ge> int_add t1 s then int_add (int_sub r s) 1 else t1)"
    by (simp add: t1_def)
  also have "\<dots> = (if INT_MAX < t1 + s \<or> t1 + s \<le> r then r - s + 1 else t1)"
    by (rule res)
  also have "\<dots> = (if r < t then (if INT_MAX < r + s then r - s + 1 else r)
            else if INT_MAX < t + s \<or> t + s \<le> r then r - s + 1
            else t)"
    using assms(4) by (auto simp: t1_def)
  finally show ?thesis .
qed

lemma editor_scroll_topline:
  assumes "is_int (row e)" and "is_int (topline e)" and "is_int (screenrows e)"
    and "0 < screenrows e"
  shows "topline (editor_scroll e) =
     (if row e < topline e
      then (if INT_MAX < row e + screenrows e then row e - screenrows e + 1 else row e)
      else if INT_MAX < topline e + screenrows e \<or> topline e + screenrows e \<le> row e
      then row e - screenrows e + 1
      else topline e)"
proof -
  have "topline (editor_scroll e) =
      (if row e \<ge> int_add (if row e < topline e then row e else topline e) (screenrows e)
       then int_add (int_sub (row e) (screenrows e)) 1
       else (if row e < topline e then row e else topline e))"
    by (simp add: editor_scroll_def Let_def)
  then show ?thesis
    unfolding scroll_axis[OF assms] .
qed

lemma editor_scroll_leftcol:
  assumes "is_int (col e)" and "is_int (leftcol e)" and "is_int (screencols e)"
    and "0 < screencols e"
  shows "leftcol (editor_scroll e) =
     (if col e < leftcol e
      then (if INT_MAX < col e + screencols e then col e - screencols e + 1 else col e)
      else if INT_MAX < leftcol e + screencols e \<or> leftcol e + screencols e \<le> col e
      then col e - screencols e + 1
      else leftcol e)"
proof -
  have "leftcol (editor_scroll e) =
      (if col e \<ge> int_add (if col e < leftcol e then col e else leftcol e) (screencols e)
       then int_add (int_sub (col e) (screencols e)) 1
       else (if col e < leftcol e then col e else leftcol e))"
    by (simp add: editor_scroll_def Let_def)
  then show ?thesis
    unfolding scroll_axis[OF assms] .
qed

text \<open>
  Claim C5, as amended. For any cursor position, any scroll offsets left by earlier calls
  and any positive screen size, all of them values of a 32-bit \<^verbatim>\<open>int\<close>: after
  \<open>editor_scroll\<close> the cursor row lies in \<open>[topline, topline + screenrows)\<close> and the
  cursor column in \<open>[leftcol, leftcol + screencols)\<close>, and the cursor itself has not
  moved. When \<open>topline + screenrows\<close> does not exceed \<open>INT_MAX\<close>, \<open>topline\<close> changes by
  the least adjustment: a cursor above the window makes it the cursor row, a cursor
  below it makes it the cursor row minus \<open>screenrows\<close> plus one, a visible cursor leaves
  it as it was. The same holds for \<open>leftcol\<close> when \<open>leftcol + screencols\<close> does not
  exceed \<open>INT_MAX\<close>.
\<close>

theorem scroll_window:
  assumes "is_int (row e)" and "is_int (topline e)" and "is_int (screenrows e)"
    and "is_int (col e)" and "is_int (leftcol e)" and "is_int (screencols e)"
    and "0 < screenrows e" and "0 < screencols e"
  shows "topline (editor_scroll e) \<le> row (editor_scroll e)
       \<and> row (editor_scroll e) < topline (editor_scroll e) + screenrows (editor_scroll e)
       \<and> leftcol (editor_scroll e) \<le> col (editor_scroll e)
       \<and> col (editor_scroll e) < leftcol (editor_scroll e) + screencols (editor_scroll e)
       \<and> row (editor_scroll e) = row e \<and> col (editor_scroll e) = col e
       \<and> (topline e + screenrows e \<le> INT_MAX \<longrightarrow>
            topline (editor_scroll e) =
              (if row e < topline e then row e
               else if topline e + screenrows e \<le> row e then row e - screenrows e + 1
               else topline e))
       \<and> (leftcol e + screencols e \<le> INT_MAX \<longrightarrow>
            leftcol (editor_scroll e) =
              (if col e < leftcol e then col e
               else if leftcol e + screencols e \<le> col e then col e - screencols e + 1
               else leftcol e))"
proof -
  note t = editor_scroll_topline[OF assms(1,2,3,7)]
  note l = editor_scroll_leftcol[OF assms(4,5,6,8)]
  have rows: "topline (editor_scroll e) \<le> row e
      \<and> row e < topline (editor_scroll e) + screenrows e"
    using assms(7) unfolding t by simp
  have cols: "leftcol (editor_scroll e) \<le> col e
      \<and> col e < leftcol (editor_scroll e) + screencols e"
    using assms(8) unfolding l by simp
  have tmin: "topline e + screenrows e \<le> INT_MAX \<longrightarrow>
            topline (editor_scroll e) =
              (if row e < topline e then row e
               else if topline e + screenrows e \<le> row e then row e - screenrows e + 1
               else topline e)"
    unfolding t by simp
  have lmin: "leftcol e + screencols e \<le> INT_MAX \<longrightarrow>
            leftcol (editor_scroll e) =
              (if col e < leftcol e then col e
               else if leftcol e + screencols e \<le> col e then col e - screencols e + 1
               else leftcol e)"
    unfolding l by simp
  show ?thesis
    using rows cols tmin lmin by (simp add: editor_scroll_fields)
qed

theorem scroll_window_witness:
  "0 < screenrows (ex_doc\<lparr>row := 30, col := 100\<rparr>)
   \<and> 0 < screencols (ex_doc\<lparr>row := 30, col := 100\<rparr>)
   \<and> topline (ex_doc\<lparr>row := 30, col := 100\<rparr>)
        + screenrows (ex_doc\<lparr>row := 30, col := 100\<rparr>) \<le> INT_MAX
   \<and> leftcol (ex_doc\<lparr>row := 30, col := 100\<rparr>)
        + screencols (ex_doc\<lparr>row := 30, col := 100\<rparr>) \<le> INT_MAX
   \<and> topline (editor_scroll (ex_doc\<lparr>row := 30, col := 100\<rparr>)) = 10
   \<and> leftcol (editor_scroll (ex_doc\<lparr>row := 30, col := 100\<rparr>)) = 21
   \<and> topline (editor_scroll (ex_doc\<lparr>row := 30, col := 100\<rparr>)) \<le> 30
   \<and> 30 < topline (editor_scroll (ex_doc\<lparr>row := 30, col := 100\<rparr>)) + 21"
proof -
  let ?e = "ex_doc\<lparr>row := 30, col := 100\<rparr>"
  have i: "is_int (row ?e)" "is_int (topline ?e)" "is_int (screenrows ?e)"
    "is_int (col ?e)" "is_int (leftcol ?e)" "is_int (screencols ?e)"
    by (simp_all add: ex_doc_def is_int_def INT_MIN_def INT_MAX_def)
  have p: "0 < screenrows ?e" "0 < screencols ?e"
    by (simp_all add: ex_doc_def)
  show ?thesis
    using scroll_window[OF i p] by (simp add: ex_doc_def INT_MAX_def)
qed

text \<open>
  Claim C5 fails as it is stated. With the cursor at column 2147483640, the left offset
  2147483600 and 80 screen columns the cursor is visible, yet \<open>leftcol + screencols\<close>
  wraps around to a negative value, the test for a cursor right of the window succeeds
  and the offset moves to 2147483561.
\<close>

theorem scroll_window_counterexample:
  "0 < screenrows (ex_doc\<lparr>col := 2147483640, leftcol := 2147483600\<rparr>)
   \<and> 0 < screencols (ex_doc\<lparr>col := 2147483640, leftcol := 2147483600\<rparr>)
   \<and> leftcol (ex_doc\<lparr>col := 2147483640, leftcol := 2147483600\<rparr>)
        \<le> col (ex_doc\<lparr>col := 2147483640, leftcol := 2147483600\<rparr>)
   \<and> col (ex_doc\<lparr>col := 2147483640, leftcol := 2147483600\<rparr>)
        < leftcol (ex_doc\<lparr>col := 2147483640, leftcol := 2147483600\<rparr>)
          + screencols (ex_doc\<lparr>col := 2147483640, leftcol := 2147483600\<rparr>)
   \<and> leftcol (editor_scroll (ex_doc\<lparr>col := 2147483640, leftcol := 2147483600\<rparr>))
        = 2147483561"
  by (simp add: editor_scroll_def ex_doc_def int_add_def int_sub_def wrap_int_def Let_def)

section \<open>Deleting a line\<close>

text \<open>
  Claim C2. For every document (it has at least one line) and every index, the document
  still has at least one line after \<open>editor_delete_line\<close>. At a valid index the line is
  removed and the later lines move up; when that was the only line, one empty line is
  put back at once. At an index out of range nothing changes.
\<close>

theorem delete_line_keeps_a_line:
  assumes "1 \<le> numlines e"
  shows "1 \<le> numlines (editor_delete_line at e)
       \<and> (0 \<le> at \<and> at < numlines e \<longrightarrow>
            lines (editor_delete_line at e) =
              (if numlines e = 1 then [[]]
               else take (nat at) (lines e) @ drop (nat at + 1) (lines e))
          \<and> numlines (editor_delete_line at e) = (if numlines e = 1 then 1 else numlines e - 1)
          \<and> modified (editor_delete_line at e) = 1)
       \<and> (at < 0 \<or> numlines e \<le> at \<longrightarrow> editor_delete_line at e = e)"
  using assms
  by (auto simp: editor_delete_line_def editor_insert_line_def numlines_def Let_def c_str_Nil)

theorem delete_line_keeps_a_line_witness:
  "1 \<le> numlines (ex_doc\<lparr>lines := [''only'']\<rparr>)
   \<and> lines (editor_delete_line 0 (ex_doc\<lparr>lines := [''only'']\<rparr>)) = [[]]
   \<and> numlines (editor_delete_line 0 (ex_doc\<lparr>lines := [''only'']\<rparr>)) = 1"
proof -
  have h: "1 \<le> numlines (ex_doc\<lparr>lines := [''only'']\<rparr>)"
    by (simp add: numlines_def)
  show ?thesis
    using delete_line_keeps_a_line[OF h, of 0] by (simp add: numlines_def)
qed

section \<open>Backspace\<close>





section \<open>Insert, then backspace\<close>




section \<open>The cursor invariant\<close>














section \<open>The Enter key\<close>



section \<open>Leaving the editor\<close>

text \<open>
  Claim C9. When the modified flag is set, one exit key (24) alone never ends the session:
  \<open>editor_process_key\<close> shows the confirmation prompt and reads exactly one more key.
  If that key is not 24, the call returns to the main loop with the key consumed and
  nothing else changed but the message row: the key is not processed as a command and
  the editor state, the document included, is as before. With no key left, \<^verbatim>\<open>getch\<close>
  returns \<^verbatim>\<open>ERR\<close>, which cancels the exit too. If the key is 24, the process exits:
  two exit keys in a row, read by the main loop, end the session.
\<close>

theorem exit_protocol:
  assumes "modified (ed w) \<noteq> 0"
  shows "(keys w = 24 # ks \<longrightarrow> editor_process_key 24 w = Exited)
       \<and> (keys w = k # ks \<and> k \<noteq> 24 \<longrightarrow>
            editor_process_key 24 w = Running (w\<lparr>status := exit_prompt, keys := ks\<rparr>))
       \<and> (keys w = [] \<longrightarrow> editor_process_key 24 w = Running (w\<lparr>status := exit_prompt\<rparr>))
       \<and> (keys w = 24 # 24 # ks \<longrightarrow> main_step w = Exited)
       \<and> (keys w = 24 # k # ks \<and> k \<noteq> 24 \<longrightarrow>
            main_step w =
              Running (w\<lparr>ed := editor_scroll (ed w), status := exit_prompt, keys := ks\<rparr>))"
  using assms
  by (simp add: editor_process_key_def main_step_def editor_refresh_screen_def getch_def
        editor_status_message_def Let_def editor_scroll_fields)

theorem exit_protocol_witness:
  "modified (ed (ex_world\<lparr>keys := [127, 97]\<rparr>)) \<noteq> 0
   \<and> editor_process_key 24 (ex_world\<lparr>keys := [127, 97]\<rparr>)
       = Running (ex_world\<lparr>status := exit_prompt, keys := [97]\<rparr>)
   \<and> modified (ed (ex_world\<lparr>keys := [24, 97]\<rparr>)) \<noteq> 0
   \<and> editor_process_key 24 (ex_world\<lparr>keys := [24, 97]\<rparr>) = Exited"
proof -
  have a: "modified (ed (ex_world\<lparr>keys := [127, 97]\<rparr>)) \<noteq> 0"
    by (simp add: ex_world_def)
  have b: "modified (ed (ex_world\<lparr>keys := [24, 97]\<rparr>)) \<noteq> 0"
    by (simp add: ex_world_def)
  show ?thesis
    using a b exit_protocol[OF a, of "[97]" 127] exit_protocol[OF b, of "[97]" 24]
    by simp
qed

section \<open>Start-up\<close>

lemma insert_line_end_modified: "modified (editor_insert_line (numlines e) s e) = 1"
  by (simp add: editor_insert_line_def numlines_def)

lemma insert_line_front_modified: "modified (editor_insert_line 0 s e) = 1"
  by (simp add: editor_insert_line_def numlines_def)

lemma fold_insert_modified:
  "modified (fold (\<lambda>buf e. editor_insert_line (numlines e) (f buf) e) bufs e)
     = (if bufs = [] then modified e else 1)"
proof (induction bufs arbitrary: e)
  case Nil
  then show ?case by simp
next
  case (Cons b bufs)
  show ?case
    by (simp add: Cons.IH insert_line_end_modified)
qed

lemma fold_insert_numlines:
  "numlines (fold (\<lambda>buf e. editor_insert_line (numlines e) (f buf) e) bufs e)
     = numlines e + int (length bufs)"
proof (induction bufs arbitrary: e)
  case Nil
  then show ?case by simp
next
  case (Cons b bufs)
  have "numlines (editor_insert_line (numlines e) (f b) e) = numlines e + 1"
    by (simp add: editor_insert_line_def numlines_def)
  then show ?case
    by (simp add: Cons.IH)
qed

lemma fold_insert_lines:
  "lines (fold (\<lambda>buf e. editor_insert_line (numlines e) (f buf) e) bufs e)
     = lines e @ map (\<lambda>buf. c_str (f buf)) bufs"
proof (induction bufs arbitrary: e)
  case Nil
  then show ?case by simp
next
  case (Cons b bufs)
  have "lines (editor_insert_line (numlines e) (f b) e) = lines e @ [c_str (f b)]"
    by (simp add: editor_insert_line_def numlines_def)
  then show ?case
    by (simp add: Cons.IH)
qed

lemma load_file_modified:
  assumes "lines (ed w) = []"
  shows "modified (ed (editor_load_file name w)) = 1"
proof (cases "fopen_r w name")
  case No_such_file
  then show ?thesis
    by (simp add: editor_load_file_def insert_line_front_modified)
next
  case Open_error
  then show ?thesis
    by (simp add: editor_load_file_def editor_status_message_def insert_line_front_modified)
next
  case (Opened bytes)
  let ?e1 = "fold (\<lambda>buf e. editor_insert_line (numlines e) (strip_newline buf) e)
               (getlines [] bytes) (ed w)"
  have "numlines ?e1 = numlines (ed w) + int (length (getlines [] bytes))"
    by (rule fold_insert_numlines)
  moreover have "numlines (ed w) = 0"
    using assms by (simp add: numlines_def)
  ultimately have n: "numlines ?e1 = int (length (getlines [] bytes))"
    by simp
  have m: "getlines [] bytes \<noteq> [] \<Longrightarrow> modified ?e1 = 1"
    by (simp add: fold_insert_modified)
  show ?thesis
    using Opened n m
    by (auto simp: editor_load_file_def Let_def insert_line_front_modified)
qed

lemma init_modified: "modified (ed (editor_init fname w)) = 1"
  by (cases fname)
     (simp_all add: editor_init_def Let_def editor_status_message_def load_file_modified
        insert_line_front_modified)

lemma load_file_keys: "keys (editor_load_file name w) = keys w"
  by (cases "fopen_r w name")
     (simp_all add: editor_load_file_def editor_status_message_def Let_def)

lemma init_keys: "keys (editor_init fname w) = keys w"
  by (cases fname)
     (simp_all add: editor_init_def Let_def editor_status_message_def load_file_keys)

text \<open>
  Claim C10. Right after \<open>editor_init\<close> the modified flag is 1, whatever the start: no
  file name, a file that does not exist, a file that cannot be opened, or a file that is
  loaded. Every line enters through \<open>editor_insert_line\<close>, which sets the flag. So the
  exit key on the fresh, untouched document ends the session exactly when the next key is
  the exit key again.
\<close>

theorem fresh_document_modified:
  "modified (ed (editor_init fname w)) = 1
   \<and> (editor_process_key 24 (editor_init fname w) = Exited \<longleftrightarrow> (\<exists>ks. keys w = 24 # ks))"
proof -
  have m: "modified (ed (editor_init fname w)) \<noteq> 0"
    by (simp add: init_modified)
  have "editor_process_key 24 (editor_init fname w) = Exited \<longleftrightarrow> (\<exists>ks. keys w = 24 # ks)"
  proof (cases "keys w")
    case Nil
    then show ?thesis
      using m init_keys[of fname w]
      by (simp add: editor_process_key_def getch_def editor_status_message_def Let_def)
  next
    case (Cons k ks)
    then show ?thesis
      using m init_keys[of fname w]
      by (simp add: editor_process_key_def getch_def editor_status_message_def Let_def)
  qed
  then show ?thesis
    by (simp add: init_modified)
qed

theorem fresh_document_modified_witness:
  "modified (ed (editor_init None ex_world)) = 1
   \<and> modified (ed (editor_init (Some ''notes.txt'') ex_world)) = 1
   \<and> modified (ed (editor_init (Some ''notes.txt'')
                    (ex_world\<lparr>disk := [''notes.txt'' \<mapsto> ''hi'' @ [NL]]\<rparr>))) = 1
   \<and> editor_process_key 24 (editor_init None (ex_world\<lparr>keys := [97]\<rparr>)) \<noteq> Exited"
  using fresh_document_modified[of None ex_world]
    fresh_document_modified[of "Some ''notes.txt''" ex_world]
    fresh_document_modified[of "Some ''notes.txt''"
      "ex_world\<lparr>disk := [''notes.txt'' \<mapsto> ''hi'' @ [NL]]\<rparr>"]
    fresh_document_modified[of None "ex_world\<lparr>keys := [97]\<rparr>"]
  by simp

section \<open>Saving\<close>

lemma stream_inv_append:
  assumes "stream_inv n sent fp"
  shows "stream_inv n (sent @ s) (fp\<lparr>pending := pending fp @ s\<rparr>)"
proof -
  have r: "length (written fp) + room fp = n"
    and eq: "written fp @ take (room fp) (pending fp) = take n sent"
    using assms by (simp_all add: stream_inv_def)
  show ?thesis
  proof (cases "room fp \<le> length (pending fp)")
    case True
    have "length (take n sent) = n"
      using True r eq[symmetric] by simp
    then have "n \<le> length sent"
      by simp
    then have "take n (sent @ s) = take n sent"
      by simp
    then show ?thesis
      using True r eq by (simp add: stream_inv_def)
  next
    case False
    then have whole: "written fp @ pending fp = take n sent"
      using eq by simp
    have "length (take n sent) < n"
      using False r whole[symmetric] by simp
    then have "take n sent = sent"
      by simp
    then have "sent = written fp @ pending fp"
      using whole by simp
    moreover have "take (length (written fp) + room fp) (written fp @ (pending fp @ s))
        = written fp @ take (room fp) (pending fp @ s)"
      by simp
    ultimately have "take n (sent @ s) = written fp @ take (room fp) (pending fp @ s)"
      unfolding r[symmetric] by simp
    then show ?thesis
      using r by (simp add: stream_inv_def)
  qed
qed

lemma stream_inv_fflush:
  assumes "stream_inv n sent fp"
  shows "stream_inv n sent (snd (fflush fp))"
proof -
  have r: "length (written fp) + room fp = n"
    and eq: "written fp @ take (room fp) (pending fp) = take n sent"
    using assms by (simp_all add: stream_inv_def)
  let ?k = "min (length (pending fp)) (room fp)"
  have k: "take ?k (pending fp) = take (room fp) (pending fp)"
    by (simp add: min_def)
  have f: "written (snd (fflush fp)) = written fp @ take ?k (pending fp)"
    "room (snd (fflush fp)) = room fp - ?k" "pending (snd (fflush fp)) = []"
    by (simp_all add: fflush_def Let_def)
  have "length (written fp @ take ?k (pending fp)) + (room fp - ?k) = n"
    using r by (simp add: min_def)
  moreover have "(written fp @ take ?k (pending fp)) @ take (room fp - ?k) [] = take n sent"
    using eq k by simp
  ultimately show ?thesis
    unfolding stream_inv_def f by (rule conjI)
qed

lemma stream_inv_fprintf:
  assumes "stream_inv n sent fp"
  shows "stream_inv n (sent @ s) (snd (fprintf fp s))"
  using stream_inv_append[OF assms, of s]
    stream_inv_fflush[OF stream_inv_append[OF assms, of s]]
  by (simp add: fprintf_def Let_def)

lemma stream_inv_write_lines:
  "stream_inv n sent fp \<Longrightarrow>
   stream_inv n (sent @ concat (map (\<lambda>l. l @ [NL]) ls)) (write_lines ls fp)"
proof (induction ls arbitrary: sent fp)
  case Nil
  then show ?case by (simp add: write_lines_def)
next
  case (Cons l ls)
  have "stream_inv n (sent @ l @ [NL]) (snd (fprintf fp (l @ [NL])))"
    by (rule stream_inv_fprintf[OF Cons.prems])
  from Cons.IH[OF this] show ?case
    by (simp add: write_lines_def)
qed

lemma saved_bytes:
  "written (snd (fflush (write_lines ls \<lparr>pending = [], written = [], room = n, bufsiz = b\<rparr>)))
     = take n (concat (map (\<lambda>l. l @ [NL]) ls))"
proof -
  let ?fp0 = "\<lparr>pending = [], written = [], room = n, bufsiz = b\<rparr>"
  have "stream_inv n [] ?fp0"
    by (simp add: stream_inv_def)
  then have "stream_inv n ([] @ concat (map (\<lambda>l. l @ [NL]) ls)) (write_lines ls ?fp0)"
    by (rule stream_inv_write_lines)
  then have "stream_inv n (concat (map (\<lambda>l. l @ [NL]) ls)) (snd (fflush (write_lines ls ?fp0)))"
    using stream_inv_fflush by simp
  then show ?thesis
    by (simp add: stream_inv_def fflush_def Let_def)
qed

lemma save_open_fails:
  "denied w (save_name (ed w)) \<Longrightarrow>
   editor_save_file w =
     (- 1, w\<lparr>ed := (ed w)\<lparr>filename := Some (save_name (ed w))\<rparr>,
             status := ''Error: Cannot open file for writing!''\<rparr>)"
  by (simp add: editor_save_file_def fopen_w_def editor_status_message_def Let_def)

lemma save_opened:
  "\<not> denied w (save_name (ed w)) \<Longrightarrow>
   editor_save_file w =
     (0, w\<lparr>ed := (ed w)\<lparr>filename := Some (save_name (ed w)), modified := 0\<rparr>,
           disk := (disk w)(save_name (ed w) \<mapsto>
             take (space w) (concat (map (\<lambda>l. l @ [NL]) (lines (ed w))))),
           status := ''File saved successfully!''\<rparr>)"
  by (simp add: editor_save_file_def fopen_w_def fclose_w_def editor_status_message_def
        Let_def saved_bytes)

text \<open>
  Claim C6, as amended. \<open>editor_save_file\<close> saves under the file name of the state, or
  under \<open>untitled.txt\<close> when none was set, and keeps that name. When the file cannot be
  opened it returns -1 and changes nothing else but the message row: the modified flag
  and the lines stay. Once the file is open it returns 0 and clears the modified flag,
  whatever became of the writes: the results of \<^verbatim>\<open>fprintf\<close> and \<^verbatim>\<open>fclose\<close> are not
  looked at. The file then holds the lines, each followed by a newline, in order, as far
  as the device had room: all of them when every write succeeds.
\<close>

theorem save_file_result:
  "filename (ed (snd (editor_save_file w))) = Some (save_name (ed w))
   \<and> (filename (ed w) = None \<longrightarrow> save_name (ed w) = ''untitled.txt'')
   \<and> (filename (ed w) = Some n \<longrightarrow> save_name (ed w) = n)
   \<and> (denied w (save_name (ed w)) \<longrightarrow>
        editor_save_file w =
          (- 1, w\<lparr>ed := (ed w)\<lparr>filename := Some (save_name (ed w))\<rparr>,
                  status := ''Error: Cannot open file for writing!''\<rparr>))
   \<and> (\<not> denied w (save_name (ed w)) \<longrightarrow>
        editor_save_file w =
          (0, w\<lparr>ed := (ed w)\<lparr>filename := Some (save_name (ed w)), modified := 0\<rparr>,
                disk := (disk w)(save_name (ed w) \<mapsto>
                  take (space w) (concat (map (\<lambda>l. l @ [NL]) (lines (ed w))))),
                status := ''File saved successfully!''\<rparr>))
   \<and> (\<not> denied w (save_name (ed w))
        \<and> length (concat (map (\<lambda>l. l @ [NL]) (lines (ed w)))) \<le> space w \<longrightarrow>
        disk (snd (editor_save_file w)) (save_name (ed w))
          = Some (concat (map (\<lambda>l. l @ [NL]) (lines (ed w)))))"
proof -
  have name: "filename (ed (snd (editor_save_file w))) = Some (save_name (ed w))"
    using save_open_fails[of w] save_opened[of w]
    by (cases "denied w (save_name (ed w))") simp_all
  have given: "(filename (ed w) = None \<longrightarrow> save_name (ed w) = ''untitled.txt'')
      \<and> (filename (ed w) = Some n \<longrightarrow> save_name (ed w) = n)"
    by (simp add: save_name_def)
  have whole: "\<not> denied w (save_name (ed w))
        \<and> length (concat (map (\<lambda>l. l @ [NL]) (lines (ed w)))) \<le> space w \<longrightarrow>
        disk (snd (editor_save_file w)) (save_name (ed w))
          = Some (concat (map (\<lambda>l. l @ [NL]) (lines (ed w))))"
    using save_opened[of w] by simp
  show ?thesis
    using name given whole save_open_fails[of w] save_opened[of w] by blast
qed

theorem save_file_result_witness:
  "editor_save_file (ex_world\<lparr>denied := (\<lambda>name. True)\<rparr>)
     = (- 1, ex_world\<lparr>denied := (\<lambda>name. True),
                      ed := (ed ex_world)\<lparr>filename := Some ''untitled.txt''\<rparr>,
                      status := ''Error: Cannot open file for writing!''\<rparr>)
   \<and> fst (editor_save_file ex_world) = 0
   \<and> modified (ed (snd (editor_save_file ex_world))) = 0
   \<and> disk (snd (editor_save_file ex_world)) ''untitled.txt'' = Some (''ab'' @ [NL] @ ''cd'' @ [NL])
   \<and> save_name ((ed ex_world)\<lparr>filename := Some ''notes.txt''\<rparr>) = ''notes.txt''
   \<and> filename (ed (snd (editor_save_file
        (ex_world\<lparr>ed := (ed ex_world)\<lparr>filename := Some ''notes.txt''\<rparr>\<rparr>)))) = Some ''notes.txt''"
proof -
  let ?named = "ex_world\<lparr>ed := (ed ex_world)\<lparr>filename := Some ''notes.txt''\<rparr>\<rparr>"
  have n: "save_name (ed ex_world) = ''untitled.txt''"
    "save_name (ed (ex_world\<lparr>denied := (\<lambda>name. True)\<rparr>)) = ''untitled.txt''"
    by (simp_all add: save_name_def ex_world_def ex_doc_def)
  have d: "\<not> denied ex_world ''untitled.txt''"
    "denied (ex_world\<lparr>denied := (\<lambda>name. True)\<rparr>) ''untitled.txt''"
    by (simp_all add: ex_world_def)
  have l: "lines (ed ex_world) = [''ab'', ''cd'']" "space ex_world = 1000"
    "ed (ex_world\<lparr>denied := (\<lambda>name. True)\<rparr>) = ed ex_world"
    by (simp_all add: ex_world_def ex_doc_def)
  have f: "filename (ed ?named) = Some ''notes.txt''"
    by simp
  show ?thesis
    using save_file_result[of ex_world]
      save_file_result[of "ex_world\<lparr>denied := (\<lambda>name. True)\<rparr>"]
      save_file_result[of ?named "''notes.txt''"]
    by (simp add: n d l f)
qed

text \<open>
  Claim C6 fails as it is stated, on a write failure. With room for 4 bytes on the
  device, both calls of \<^verbatim>\<open>fprintf\<close> put their 3 bytes into the buffer and return 3;
  the flush in \<^verbatim>\<open>fclose\<close> gets 4 of the 6 bytes out and fails. \<open>editor_save_file\<close>
  still returns 0 and clears the modified flag; the file holds \<open>ab\<close>, a newline and
  \<open>c\<close>.
\<close>

theorem save_file_counterexample:
  "modified (ed (ex_world\<lparr>space := 4\<rparr>)) = 1
   \<and> fst (fprintf \<lparr>pending = [], written = [], room = 4, bufsiz = 4096\<rparr> (''ab'' @ [NL])) = 3
   \<and> fst (fprintf \<lparr>pending = ''ab'' @ [NL], written = [], room = 4, bufsiz = 4096\<rparr>
             (''cd'' @ [NL])) = 3
   \<and> write_lines (lines (ed (ex_world\<lparr>space := 4\<rparr>)))
        \<lparr>pending = [], written = [], room = 4, bufsiz = 4096\<rparr>
       = \<lparr>pending = ''ab'' @ [NL] @ ''cd'' @ [NL], written = [], room = 4, bufsiz = 4096\<rparr>
   \<and> fst (fclose_w ''untitled.txt''
             \<lparr>pending = ''ab'' @ [NL] @ ''cd'' @ [NL], written = [], room = 4, bufsiz = 4096\<rparr>
             (ex_world\<lparr>space := 4\<rparr>)) = - 1
   \<and> fst (editor_save_file (ex_world\<lparr>space := 4\<rparr>)) = 0
   \<and> modified (ed (snd (editor_save_file (ex_world\<lparr>space := 4\<rparr>)))) = 0
   \<and> disk (snd (editor_save_file (ex_world\<lparr>space := 4\<rparr>))) ''untitled.txt''
       = Some (''ab'' @ [NL] @ ''c'')"
  by (simp add: editor_save_file_def save_name_def fopen_w_def fclose_w_def fprintf_def
        fflush_def write_lines_def editor_status_message_def ex_world_def ex_doc_def Let_def)

section \<open>Saving, then loading\<close>

lemma getlines_line:
  "NL \<notin> set l \<Longrightarrow> getlines cur (l @ NL # rest) = (cur @ l @ [NL]) # getlines [] rest"
  by (induction l arbitrary: cur) auto

lemma getlines_join:
  "\<forall>l \<in> set ls. NL \<notin> set l \<Longrightarrow>
   getlines [] (concat (map (\<lambda>l. l @ [NL]) ls)) = map (\<lambda>l. l @ [NL]) ls"
proof (induction ls)
  case Nil
  then show ?case by simp
next
  case (Cons l ls)
  have "getlines [] (l @ NL # concat (map (\<lambda>l. l @ [NL]) ls))
          = ([] @ l @ [NL]) # getlines [] (concat (map (\<lambda>l. l @ [NL]) ls))"
    using Cons.prems by (intro getlines_line) simp
  then show ?case
    using Cons by simp
qed

lemma strip_newline_line: "strip_newline (l @ [NL]) = l @ [NUL]"
  by (simp add: strip_newline_def)

lemma c_str_terminated: "NUL \<notin> set l \<Longrightarrow> c_str (l @ [NUL] @ rest) = l"
  by (induction l) (auto simp: c_str_def)

lemma load_saved_text:
  assumes "\<forall>l \<in> set ls. NL \<notin> set l \<and> NUL \<notin> set l" and "ls \<noteq> []"
    and "lines (ed w) = []" and "fopen_r w name = Opened (concat (map (\<lambda>l. l @ [NL]) ls))"
  shows "lines (ed (editor_load_file name w)) = ls"
proof -
  let ?e1 = "fold (\<lambda>buf e. editor_insert_line (numlines e) (strip_newline buf) e)
               (getlines [] (concat (map (\<lambda>l. l @ [NL]) ls))) (ed w)"
  have g: "getlines [] (concat (map (\<lambda>l. l @ [NL]) ls)) = map (\<lambda>l. l @ [NL]) ls"
    using assms(1) by (intro getlines_join) simp
  have "map (\<lambda>buf. c_str (strip_newline buf)) (map (\<lambda>l. l @ [NL]) ls) = ls"
    using assms(1) c_str_terminated[where rest = "[]"]
    by (simp add: strip_newline_line map_idI)
  then have l1: "lines ?e1 = ls"
    using assms(3) by (simp add: fold_insert_lines g)
  then have "numlines ?e1 \<noteq> 0"
    using assms(2) by (simp add: numlines_def)
  then show ?thesis
    using assms(4) l1 by (simp add: editor_load_file_def Let_def)
qed

text \<open>
  Claim C8. Saving and then loading gives back the lines. Take a document with at least
  one line whose lines hold no newline and no NUL byte, saved to a file that opens and
  has room: the file holds each line followed by a newline, in order. Take any world in
  which that file has these bytes and can be opened, whatever its editor state:
  \<open>editor_init\<close> with the file's name yields the saved lines in the same order, with
  the cursor at (0, 0) and the name kept. The file is the one named in the state, or
  \<open>untitled.txt\<close>. Loading cuts one trailing newline or one trailing carriage return
  off a stream line, never both, and nothing when the line ends in neither. The document
  \<open>["abc", "", "de"]\<close> comes back as the same three lines.
\<close>

theorem save_then_load:
  assumes "lines (ed w) \<noteq> []"
    and "\<forall>l \<in> set (lines (ed w)). NL \<notin> set l \<and> NUL \<notin> set l"
    and "\<not> denied w (save_name (ed w))"
    and "length (concat (map (\<lambda>l. l @ [NL]) (lines (ed w)))) \<le> space w"
    and "disk w2 (save_name (ed w)) = disk (snd (editor_save_file w)) (save_name (ed w))"
    and "\<not> denied w2 (save_name (ed w))"
  shows "disk (snd (editor_save_file w)) (save_name (ed w))
           = Some (concat (map (\<lambda>l. l @ [NL]) (lines (ed w))))
       \<and> lines (ed (editor_init (Some (save_name (ed w))) w2)) = lines (ed w)
       \<and> row (ed (editor_init (Some (save_name (ed w))) w2)) = 0
       \<and> col (ed (editor_init (Some (save_name (ed w))) w2)) = 0
       \<and> filename (ed (editor_init (Some (save_name (ed w))) w2)) = Some (save_name (ed w))
       \<and> (filename (ed w) = None \<longrightarrow> save_name (ed w) = ''untitled.txt'')
       \<and> (filename (ed w) = Some n \<longrightarrow> save_name (ed w) = n)
       \<and> strip_newline (buf @ [NL]) = buf @ [NUL]
       \<and> strip_newline (buf @ [CR]) = buf @ [NUL]
       \<and> (buf = [] \<or> (last buf \<noteq> NL \<and> last buf \<noteq> CR) \<longrightarrow> strip_newline buf = buf)"
proof -
  let ?name = "save_name (ed w)"
  let ?bytes = "concat (map (\<lambda>l. l @ [NL]) (lines (ed w)))"
  let ?e0 = "\<lparr>lines = [], row = 0, col = 0, topline = 0, leftcol = 0,
              screenrows = fst (maxyx w2) - 3, screencols = snd (maxyx w2),
              filename = Some ?name, modified = 0\<rparr>"
  let ?e1 = "fold (\<lambda>buf e. editor_insert_line (numlines e) (strip_newline buf) e)
               (getlines [] ?bytes) ?e0"
  have saved: "disk (snd (editor_save_file w)) ?name = Some ?bytes"
    using assms(3,4) by (simp add: save_opened)
  then have opened: "fopen_r (w2\<lparr>ed := ?e0\<rparr>) ?name = Opened ?bytes"
    using assms(5,6) by (simp add: fopen_r_def)
  then have loaded: "lines (ed (editor_load_file ?name (w2\<lparr>ed := ?e0\<rparr>))) = lines (ed w)"
    using assms(1,2) by (intro load_saved_text) simp_all
  have fields: "row e = 0 \<and> col e = 0 \<and> filename e = Some ?name \<Longrightarrow>
      row (editor_insert_line at s e) = 0 \<and> col (editor_insert_line at s e) = 0
      \<and> filename (editor_insert_line at s e) = Some ?name" for at s e
    by (simp add: editor_insert_line_def)
  have "row e = 0 \<and> col e = 0 \<and> filename e = Some ?name \<Longrightarrow>
      row (fold (\<lambda>buf e. editor_insert_line (numlines e) (strip_newline buf) e) bufs e) = 0
      \<and> col (fold (\<lambda>buf e. editor_insert_line (numlines e) (strip_newline buf) e) bufs e) = 0
      \<and> filename (fold (\<lambda>buf e. editor_insert_line (numlines e) (strip_newline buf) e) bufs e)
          = Some ?name" for bufs e
    by (induction bufs arbitrary: e) (simp_all add: fields)
  then have e1: "row ?e1 = 0 \<and> col ?e1 = 0 \<and> filename ?e1 = Some ?name"
    by simp
  have "ed (editor_load_file ?name (w2\<lparr>ed := ?e0\<rparr>))
      = (if numlines ?e1 = 0 then editor_insert_line 0 [] ?e1 else ?e1)"
    using opened by (simp add: editor_load_file_def Let_def)
  then have cursor: "row (ed (editor_load_file ?name (w2\<lparr>ed := ?e0\<rparr>))) = 0
      \<and> col (ed (editor_load_file ?name (w2\<lparr>ed := ?e0\<rparr>))) = 0
      \<and> filename (ed (editor_load_file ?name (w2\<lparr>ed := ?e0\<rparr>))) = Some ?name"
    using e1 fields[OF e1, of 0 "[]"] by simp
  have init: "ed (editor_init (Some ?name) w2) = ed (editor_load_file ?name (w2\<lparr>ed := ?e0\<rparr>))"
    by (simp add: editor_init_def editor_status_message_def Let_def)
  have strip: "strip_newline (buf @ [NL]) = buf @ [NUL]"
    "strip_newline (buf @ [CR]) = buf @ [NUL]"
    by (simp_all add: strip_newline_def)
  have keep: "buf = [] \<or> (last buf \<noteq> NL \<and> last buf \<noteq> CR) \<longrightarrow> strip_newline buf = buf"
    by (auto simp: strip_newline_def last_conv_nth)
  have given: "(filename (ed w) = None \<longrightarrow> save_name (ed w) = ''untitled.txt'')
      \<and> (filename (ed w) = Some n \<longrightarrow> save_name (ed w) = n)"
    by (simp add: save_name_def)
  show ?thesis
    unfolding init using saved loaded cursor strip keep given by blast
qed

theorem save_then_load_witness:
  "disk (snd (editor_save_file
       (ex_world\<lparr>ed := ex_doc\<lparr>lines := [''abc'', [], ''de''], filename := Some ''notes.txt''\<rparr>\<rparr>)))
     ''notes.txt'' = Some (''abc'' @ [NL] @ [NL] @ ''de'' @ [NL])
   \<and> lines (ed ex_world) = [''ab'', ''cd'']
   \<and> lines (ed (editor_init (Some ''notes.txt'')
        (ex_world\<lparr>disk := [''notes.txt'' \<mapsto> ''abc'' @ [NL] @ [NL] @ ''de'' @ [NL]]\<rparr>)))
       = [''abc'', [], ''de'']
   \<and> strip_newline (''abc'' @ [CR] @ [NL]) = ''abc'' @ [CR] @ [NUL]"
proof -
  let ?w = "ex_world\<lparr>ed := ex_doc\<lparr>lines := [''abc'', [], ''de''], filename := Some ''notes.txt''\<rparr>\<rparr>"
  let ?w2 = "ex_world\<lparr>disk := [''notes.txt'' \<mapsto> ''abc'' @ [NL] @ [NL] @ ''de'' @ [NL]]\<rparr>"
  have l: "lines (ed ?w) = [''abc'', [], ''de'']"
    by simp
  have n: "save_name (ed ?w) = ''notes.txt''"
    by (simp add: save_name_def)
  have h1: "lines (ed ?w) \<noteq> []"
    by simp
  have h2: "\<forall>l \<in> set (lines (ed ?w)). NL \<notin> set l \<and> NUL \<notin> set l"
    by (simp add: NL_def NUL_def)
  have h3: "\<not> denied ?w (save_name (ed ?w))"
    by (simp add: ex_world_def)
  have h4: "length (concat (map (\<lambda>l. l @ [NL]) (lines (ed ?w)))) \<le> space ?w"
    by (simp add: ex_world_def)
  have h5: "disk ?w2 (save_name (ed ?w)) = disk (snd (editor_save_file ?w)) (save_name (ed ?w))"
  proof -
    have "disk (snd (editor_save_file ?w)) (save_name (ed ?w))
        = Some (take (space ?w) (concat (map (\<lambda>l. l @ [NL]) (lines (ed ?w)))))"
      unfolding save_opened[OF h3] by simp
    then show ?thesis
      unfolding n l by (simp add: ex_world_def)
  qed
  have h6: "\<not> denied ?w2 (save_name (ed ?w))"
    by (simp add: ex_world_def)
  have old: "lines (ed ex_world) = [''ab'', ''cd'']"
    by (simp add: ex_world_def ex_doc_def)
  show ?thesis
    using old save_then_load[OF h1 h2 h3 h4 h5 h6, of "''notes.txt''" "''abc'' @ [CR]"]
    unfolding n l by simp
qed

end
